theory Spec2Isabelle
  imports Complex_Main "HOL-Library.AList"
begin

section \<open>Shared helpers: Python strings\<close>

text \<open>
  Strings are byte strings. \<open>lower\<close> is Python's \<open>str.lower\<close> on the ASCII letters
  (other bytes are kept), \<open>contains sub s\<close> is \<open>sub in s\<close>, \<open>endswith s suf\<close> is
  \<open>s.endswith(suf)\<close>.
\<close>

definition lower_char :: "char \<Rightarrow> char" where
  "lower_char c =
     (case map_of (zip ''ABCDEFGHIJKLMNOPQRSTUVWXYZ'' ''abcdefghijklmnopqrstuvwxyz'') c of
        Some l \<Rightarrow> l
      | None \<Rightarrow> c)"

definition lower :: "string \<Rightarrow> string" where
  "lower s = map lower_char s"

fun contains :: "string \<Rightarrow> string \<Rightarrow> bool" where
  "contains sub [] = (sub = [])"
| "contains sub (c # cs) = (take (length sub) (c # cs) = sub \<or> contains sub cs)"

definition endswith :: "string \<Rightarrow> string \<Rightarrow> bool" where
  "endswith s suf = (length suf \<le> length s \<and> drop (length s - length suf) s = suf)"

section \<open>Capture client (esp32\_cam\_simulator.py)\<close>

text \<open>
  One entry of \<open>result["detections"]\<close>: \<open>detection.get("confidence", 0.0)\<close>,
  \<open>detection.get("class_id")\<close> (None when the key is absent) and
  \<open>detection.get("class", "")\<close>. Confidences are read as real numbers.
\<close>

record detection =
  confidence :: real
  class_id :: "int option"
  class_name :: string

text \<open>
  The JSON value of a 200 response, as far as the client reads it: its detections, its
  processing time, and \<open>truthy\<close>, the value of \<open>bool(result)\<close> that \<open>if result:\<close>
  tests in the capture loop (false for \<open>{}\<close>, \<open>[]\<close> and \<open>null\<close>, true for every reply
  of the worker).
\<close>

record detect_result =
  detections :: "detection list"
  processing_time_ms :: real
  truthy :: bool

record detection_record =
  dr_timestamp :: int
  dr_task :: string
  dr_target_detected :: bool
  dr_fire_on :: int
  dr_confidence :: real
  dr_detections :: "detection list"
  dr_total_detections :: nat

text \<open>
  The fields of \<open>ESP32CAMSimulator\<close> that the request and detection paths read or write.
  Timestamps (\<open>datetime.now()\<close>) are microseconds on the wall clock.
\<close>

record client =
  frame_rate :: real
  current_task :: string
  fire_on :: int
  last_detection_time :: "int option"
  detection_history :: "detection_record list"
  request_count :: int
  consecutive_failures :: int
  last_successful_request :: int

definition task_models :: "string \<rightharpoonup> string" where
  "task_models = [''fire'' \<mapsto> ''fire_detection_final'', ''leaves'' \<mapsto> ''yellow-leaves-best'']"

record request_data =
  rq_image :: string
  rq_model :: string
  rq_threshold :: real
  rq_device_id :: string

text \<open>
  What \<open>requests.post(...)\<close> followed by \<open>response.json()\<close> can do: answer with a
  status code and a body (\<open>None\<close> when the body is not JSON, so that \<open>response.json()\<close>
  raises), or raise. Of a raised exception \<open>e\<close> the code reads only
  \<open>"timeout" in str(e).lower()\<close>, which is the flag carried by \<open>Raised\<close>.
\<close>

datatype http_outcome =
  Response int "detect_result option"
| Raised bool

datatype effect =
  Sleep real
| LogHighRequestCount int
| LogServerError int
| LogTimeout
| LogServerCritical
| LogSendFailed
| LogHealthCritical int
| LogUnresponsive
| LogNoResult
| LogCaptureFailed
| LogAlarm bool
| LogStatusChanged int
| NotifyDashboard

text \<open>
  The environment of one cycle: the task the dashboard reports
  (\<open>get_current_task_from_dashboard\<close>, which never raises), the HTTP call as a function of
  the request and of the timeout passed to it, the clock, the frame
  (\<open>_capture_frame\<close>) and the time the cycle spends outside \<open>time.sleep\<close>.
\<close>

record client_env =
  dashboard_task :: string
  post :: "request_data \<Rightarrow> real \<Rightarrow> http_outcome"
  now :: int
  frame :: "string option"
  busy_time :: real

definition request_timeout :: real where
  "request_timeout = 15"

definition device_id :: string where
  "device_id = ''ESP32_CAM_SIM_001''"

text \<open>The \<open>except Exception as e\<close> handler of \<open>_send_to_ai_server\<close>.\<close>

definition send_failed :: "client \<Rightarrow> bool \<Rightarrow> client \<times> detect_result option \<times> effect list" where
  "send_failed c has_timeout =
     (let c' = c\<lparr>consecutive_failures := consecutive_failures c + 1\<rparr>;
          e1 = (if has_timeout
                then LogTimeout #
                     (if request_count c' > 200 \<and> consecutive_failures c' \<ge> 2
                      then [LogServerCritical, Sleep 5] else [])
                else [LogSendFailed]);
          e2 = (if consecutive_failures c' \<ge> 3
                then LogHealthCritical (consecutive_failures c') #
                     (if consecutive_failures c' \<ge> 5 then [LogUnresponsive, Sleep 10] else [])
                else [])
      in (c', None, e1 @ e2))"

text \<open>The \<open>request_data\<close> dictionary built for the task \<open>self.current_task\<close>.\<close>

definition build_request :: "string \<Rightarrow> string \<Rightarrow> request_data" where
  "build_request task image_base64 =
     \<lparr>rq_image = image_base64,
      rq_model = (case task_models task of Some m \<Rightarrow> m | None \<Rightarrow> ''fire_detect_final''),
      rq_threshold = 0.5, rq_device_id = device_id\<rparr>"

definition send_to_ai_server ::
  "client_env \<Rightarrow> client \<Rightarrow> string \<Rightarrow> client \<times> detect_result option \<times> effect list" where
  "send_to_ai_server env c image_base64 =
     (let c1 = c\<lparr>current_task := dashboard_task env\<rparr>;
          rd = build_request (current_task c1) image_base64;
          c2 = c1\<lparr>request_count := request_count c1 + 1\<rparr>;
          e0 = (if request_count c2 \<ge> 200 \<and> request_count c2 mod 20 = 0
                then [LogHighRequestCount (request_count c2)] else [])
      in case post env rd request_timeout of
           Response status body \<Rightarrow>
             (if status = 200
              then (let c3 = c2\<lparr>consecutive_failures := 0, last_successful_request := now env\<rparr>
                    in case body of
                         Some r \<Rightarrow> (c3, Some r, e0)
                       | None \<Rightarrow> (case send_failed c3 False of (c4, r, e) \<Rightarrow> (c4, r, e0 @ e)))
              else (c2\<lparr>consecutive_failures := consecutive_failures c2 + 1\<rparr>, None,
                    e0 @ [LogServerError status]))
         | Raised has_timeout \<Rightarrow>
             (case send_failed c2 has_timeout of (c4, r, e) \<Rightarrow> (c4, r, e0 @ e)))"

text \<open>
  \<open>_process_detection_result\<close>. The loop over the detections keeps
  \<open>(target_detected, max_confidence, target_detections)\<close>.
\<close>

definition is_target :: "string \<Rightarrow> detection \<Rightarrow> bool" where
  "is_target task d =
     (if task = ''fire'' then class_id d = Some 0 \<or> contains ''fire'' (lower (class_name d))
      else if task = ''leaves'' then class_id d = Some 0 \<or> contains ''yellow'' (lower (class_name d))
      else False)"

definition scan_detection ::
  "string \<Rightarrow> bool \<times> real \<times> detection list \<Rightarrow> detection \<Rightarrow> bool \<times> real \<times> detection list" where
  "scan_detection task acc d =
     (case acc of (target_detected, max_confidence, target_detections) \<Rightarrow>
        if is_target task d
        then (True,
              (if confidence d > max_confidence then confidence d else max_confidence),
              target_detections @ [d])
        else acc)"

definition scan_detections :: "string \<Rightarrow> detection list \<Rightarrow> bool \<times> real \<times> detection list" where
  "scan_detections task ds = foldl (scan_detection task) (False, 0, []) ds"

text \<open>\<open>timedelta.seconds\<close> of a difference of two timestamps given in microseconds.\<close>

definition timedelta_seconds :: "int \<Rightarrow> int" where
  "timedelta_seconds d = (d div 1000000) mod 86400"

definition grace_seconds :: int where
  "grace_seconds = 30"

definition keep_last_100 :: "'a list \<Rightarrow> 'a list" where
  "keep_last_100 h = (if length h > 100 then drop (length h - 100) h else h)"

definition process_detection_result ::
  "int \<Rightarrow> client \<Rightarrow> detect_result \<Rightarrow> client \<times> bool \<times> effect list" where
  "process_detection_result t c result =
     (case scan_detections (current_task c) (detections result) of
        (target_detected, max_confidence, target_detections) \<Rightarrow>
          let previous_fire_on = fire_on c;
              c1 = (if target_detected
                    then c\<lparr>fire_on := 1, last_detection_time := Some t\<rparr>
                    else (case last_detection_time c of
                            Some t0 \<Rightarrow>
                              if timedelta_seconds (t - t0) > grace_seconds
                              then c\<lparr>fire_on := 0\<rparr> else c
                          | None \<Rightarrow> c));
              e1 = (if target_detected then [LogAlarm (current_task c = ''fire'')] else []);
              e2 = (if previous_fire_on \<noteq> fire_on c1 then [LogStatusChanged (fire_on c1)] else []);
              rec = \<lparr>dr_timestamp = t, dr_task = current_task c,
                     dr_target_detected = target_detected, dr_fire_on = fire_on c1,
                     dr_confidence = max_confidence, dr_detections = target_detections,
                     dr_total_detections = length (detections result)\<rparr>;
              c2 = c1\<lparr>detection_history := keep_last_100 (detection_history c1 @ [rec])\<rparr>
          in (c2, target_detected, e1 @ e2))"

text \<open>
  \<open>frame_interval = 1.0 / self.frame_rate\<close>, computed once before the loop; a frame rate
  of 0 raises \<open>ZeroDivisionError\<close>.
\<close>

definition frame_interval :: "real \<Rightarrow> real option" where
  "frame_interval fr = (if fr = 0 then None else Some (1 / fr))"

definition total_sleep :: "effect list \<Rightarrow> real" where
  "total_sleep es = sum_list (map (\<lambda>e. case e of Sleep d \<Rightarrow> d | _ \<Rightarrow> 0) es)"

text \<open>
  One pass of the body of \<open>while self.is_running\<close> in \<open>_capture_loop\<close>. The result is
  the client, the effects in order, and the time from \<open>start_time\<close> to the end of the
  final \<open>time.sleep(sleep_time)\<close>: \<open>elapsed\<close> is the time spent working plus the time
  slept so far, a sleep taking exactly the time asked for.
\<close>

definition capture_cycle ::
  "client_env \<Rightarrow> real \<Rightarrow> client \<Rightarrow> client \<times> effect list \<times> real" where
  "capture_cycle env interval c =
     (case (case frame env of
              None \<Rightarrow> (c, [LogCaptureFailed])
            | Some image_base64 \<Rightarrow>
                if image_base64 = [] then (c, [LogCaptureFailed])
                else (case send_to_ai_server env c image_base64 of
                        (c1, Some result, e1) \<Rightarrow>
                          if truthy result
                          then (case process_detection_result (now env) c1 result of
                                  (c2, target_detected, e2) \<Rightarrow>
                                    (c2, e1 @ e2 @
                                         (if detection_history c2 \<noteq> [] then [NotifyDashboard]
                                          else [])))
                          else (c1, e1 @ [LogNoResult, Sleep 2])
                      | (c1, None, e1) \<Rightarrow> (c1, e1 @ [LogNoResult, Sleep 2]))) of
        (c', es) \<Rightarrow>
          let elapsed = busy_time env + total_sleep es;
              sleep_time = max 0 (interval - elapsed)
          in (c', es @ [Sleep sleep_time], elapsed + sleep_time))"

text \<open>
  The detection path over a sequence of results, each with the time at which it is
  processed: what the capture loop does to the alarm state, one result per cycle.
\<close>

fun observe_all :: "client \<Rightarrow> (int \<times> detect_result) list \<Rightarrow> client" where
  "observe_all c [] = c"
| "observe_all c ((t, r) # evs) = observe_all (fst (process_detection_result t c r)) evs"

section \<open>Inference worker (server/ai\_server.py)\<close>

definition upper_char :: "char \<Rightarrow> char" where
  "upper_char c =
     (case map_of (zip ''abcdefghijklmnopqrstuvwxyz'' ''ABCDEFGHIJKLMNOPQRSTUVWXYZ'') c of
        Some u \<Rightarrow> u
      | None \<Rightarrow> c)"

definition upper :: "string \<Rightarrow> string" where
  "upper s = map upper_char s"

text \<open>\<open>filename.replace(".pt", "")\<close>: every occurrence, left to right.\<close>

fun replace_pt :: "string \<Rightarrow> string" where
  "replace_pt (a # b # c # cs) =
     (if [a, b, c] = ''.pt'' then replace_pt cs else a # replace_pt (b # c # cs))"
| "replace_pt cs = cs"

text \<open>
  \<open>int(x)\<close> of a float truncates towards zero; \<open>round(x, n)\<close> rounds half to even.
  Floats are read as real numbers.
\<close>

definition py_int :: "real \<Rightarrow> int" where
  "py_int x = (if 0 \<le> x then \<lfloor>x\<rfloor> else \<lceil>x\<rceil>)"

definition py_round :: "real \<Rightarrow> nat \<Rightarrow> real" where
  "py_round x n =
     (let y = x * 10 ^ n; f = \<lfloor>y\<rfloor>; d = y - of_int f;
          r = (if d < 1 / 2 then f else if 1 / 2 < d then f + 1
               else if even f then f else f + 1)
      in of_int r / 10 ^ n)"

text \<open>
  A loaded YOLO model is known by the file it was built from and by its class names
  (\<open>model.names\<close>). The table \<open>models\<close> is a Python dict: an association list in
  insertion order, written with \<open>AList.update\<close> and read with \<open>map_of\<close>.
\<close>

record yolo_model =
  model_file :: string
  model_names :: "(int \<times> string) list"

type_synonym model_table = "(string \<times> yolo_model) list"

text \<open>
  The models directory as one call of \<open>load_models\<close> finds it: whether it exists,
  whether \<open>os.makedirs\<close> succeeds, what \<open>os.listdir\<close> returns (\<open>None\<close> when it raises)
  and, for each file name, the model \<open>YOLO(model_path)\<close> builds (\<open>None\<close> when it raises).
\<close>

record models_dir =
  dir_exists :: bool
  makedirs_ok :: bool
  listdir :: "string list option"
  yolo :: "string \<Rightarrow> yolo_model option"

definition load_one :: "models_dir \<Rightarrow> model_table \<Rightarrow> string \<Rightarrow> model_table" where
  "load_one fs ms filename =
     (if endswith filename ''.pt''
      then (case yolo fs filename of
              Some model \<Rightarrow> AList.update (replace_pt filename) model ms
            | None \<Rightarrow> ms)
      else ms)"

text \<open>
  \<open>load_models\<close> on the table \<open>ms\<close>. The first component says whether the call raised;
  it can raise only before the loop (in \<open>os.makedirs\<close> or \<open>os.listdir\<close>), where the table
  is still untouched: inside the loop every exception is caught per file.
\<close>

definition load_models :: "models_dir \<Rightarrow> model_table \<Rightarrow> bool \<times> model_table" where
  "load_models fs ms =
     (if \<not> dir_exists fs then (\<not> makedirs_ok fs, ms)
      else (case listdir fs of
              None \<Rightarrow> (True, ms)
            | Some files \<Rightarrow> (False, foldl (load_one fs) ms files)))"

record worker =
  models :: model_table
  request_counter :: int
  last_model_reload :: int

datatype worker_event =
  LogCleanup int
| GcCollect
| CudaEmptyCache
| LogCleanupDone
| LogReloading int
| LogReloaded
| LogReloadFailed

record image =
  img_width :: nat
  img_height :: nat
  img_data :: string

record box =
  b_conf :: real
  b_cls :: int
  b_xyxy :: "real \<times> real \<times> real \<times> real"

record yolo_result =
  res_boxes :: "box list option"
  res_names :: "(int \<times> string) list"

text \<open>
  The environment of one \<open>detect_objects\<close> call: the models directory as the reload and
  as the fallback load in its \<open>except\<close> branch find it, \<open>torch.cuda.is_available()\<close>,
  the image decoder (\<open>base64.b64decode\<close> and \<open>Image.open\<close>; \<open>None\<close> when they raise),
  \<open>model.predict\<close> (\<open>None\<close> when it raises) and the two readings of \<open>time.time()\<close>.
  \<open>gc.collect()\<close> and \<open>torch.cuda.empty_cache()\<close> are taken not to raise.
\<close>

record worker_env =
  fs_reload :: models_dir
  fs_retry :: models_dir
  cuda_available :: bool
  open_image :: "string \<Rightarrow> image option"
  predict :: "yolo_model \<Rightarrow> image \<Rightarrow> real \<Rightarrow> yolo_result list option"
  t_start :: real
  t_end :: real

definition free_memory :: "worker_env \<Rightarrow> worker_event list" where
  "free_memory env = GcCollect # (if cuda_available env then [CudaEmptyCache] else [])"

definition reload_interval :: int where
  "reload_interval = 100"

definition gc_interval :: int where
  "gc_interval = 20"

definition reload_due :: "worker \<Rightarrow> bool" where
  "reload_due w = (request_counter w - last_model_reload w \<ge> reload_interval)"

definition reload_models_if_needed :: "worker_env \<Rightarrow> worker \<Rightarrow> worker \<times> worker_event list" where
  "reload_models_if_needed env w =
     (if reload_due w
      then (let ev = LogReloading (request_counter w) # free_memory env
            in case load_models (fs_reload env) [] of
                 (False, ms) \<Rightarrow>
                   (w\<lparr>models := ms, last_model_reload := request_counter w\<rparr>, ev @ [LogReloaded])
               | (True, ms) \<Rightarrow>
                   (w\<lparr>models := snd (load_models (fs_retry env) ms)\<rparr>, ev @ [LogReloadFailed]))
      else (w, []))"

text \<open>
  The values the global table \<open>models\<close> takes, in order, while
  \<open>reload_models_if_needed\<close> runs: the table before, then after each \<open>del\<close>, after
  \<open>models.clear()\<close>, and after each file of each \<open>load_models\<close> pass.
\<close>

fun del_trace :: "model_table \<Rightarrow> string list \<Rightarrow> model_table list" where
  "del_trace ms [] = []"
| "del_trace ms (k # ks) = AList.delete k ms # del_trace (AList.delete k ms) ks"

fun load_trace :: "models_dir \<Rightarrow> model_table \<Rightarrow> string list \<Rightarrow> model_table list" where
  "load_trace fs ms [] = []"
| "load_trace fs ms (f # fs') = load_one fs ms f # load_trace fs (load_one fs ms f) fs'"

definition load_models_trace :: "models_dir \<Rightarrow> model_table \<Rightarrow> model_table list" where
  "load_models_trace fs ms =
     (if \<not> dir_exists fs then []
      else (case listdir fs of None \<Rightarrow> [] | Some files \<Rightarrow> load_trace fs ms files))"

definition reload_table_trace :: "worker_env \<Rightarrow> worker \<Rightarrow> model_table list" where
  "reload_table_trace env w =
     (if reload_due w
      then models w # del_trace (models w) (map fst (models w)) @ [[]] @ load_models_trace (fs_reload env) [] @
           (case load_models (fs_reload env) [] of
              (False, ms) \<Rightarrow> []
            | (True, ms) \<Rightarrow> load_models_trace (fs_retry env) ms)
      else [models w])"

text \<open>The request as Flask hands it to \<open>detect_objects\<close>.\<close>

record detect_request =
  dq_image :: "string option"
  dq_model :: "string option"
  dq_threshold :: "real option"
  dq_device_id :: "string option"

datatype request_body =
  NotJson
| BadJson
| Json detect_request

record bbox =
  x1 :: int
  y1 :: int
  x2 :: int
  y2 :: int
  width :: int
  height :: int
  center_x :: int
  center_y :: int

record wdetection =
  d_class :: string
  d_class_id :: int
  d_confidence :: real
  d_bbox :: bbox

record alert =
  a_type :: string
  a_severity :: string
  a_confidence :: real
  a_recommended_action :: string

record detect_response =
  resp_detections :: "wdetection list"
  resp_processing_time_ms :: real
  resp_model_used :: string
  resp_confidence_threshold :: real
  resp_image_size :: "nat \<times> nat"
  resp_device_id :: string
  resp_detection_count :: nat
  resp_request_count :: int
  resp_alerts :: "alert list option"

datatype reply_body =
  ErrorMsg string
| ModelNotFound string "string list"
| InternalError
| Detected detect_response

datatype reply = Reply int reply_body

definition default_model :: string where
  "default_model = ''fire_detect_final.pt''"

definition default_confidence :: real where
  "default_confidence = 0.5"

text \<open>
  \<open>decode_base64_image\<close>: a data URL keeps what lies between its first and second
  comma (\<open>split(",")[1]\<close>, an IndexError without a comma); every exception becomes the
  \<open>ValueError\<close> that \<open>detect_objects\<close> answers with 400.
\<close>

definition decode_base64_image :: "worker_env \<Rightarrow> string \<Rightarrow> image option" where
  "decode_base64_image env s =
     (if contains ''data:image/'' s
      then (if CHR '','' \<in> set s
            then open_image env (takeWhile (\<lambda>c. c \<noteq> CHR '','') (tl (dropWhile (\<lambda>c. c \<noteq> CHR '','') s)))
            else None)
      else open_image env s)"

definition make_detection :: "string \<Rightarrow> box \<Rightarrow> wdetection" where
  "make_detection cn b =
     (case b_xyxy b of (bx1, by1, bx2, by2) \<Rightarrow>
        \<lparr>d_class = cn, d_class_id = b_cls b, d_confidence = py_round (b_conf b) 3,
         d_bbox = \<lparr>x1 = py_int bx1, y1 = py_int by1, x2 = py_int bx2, y2 = py_int by2,
                   width = py_int (bx2 - bx1), height = py_int (by2 - by1),
                   center_x = py_int ((bx1 + bx2) / 2), center_y = py_int ((by1 + by2) / 2)\<rparr>\<rparr>)"

text \<open>
  \<open>process_yolo_results\<close>; \<open>None\<close> when \<open>result.names[class_id]\<close> raises KeyError.
\<close>

fun process_boxes :: "(int \<times> string) list \<Rightarrow> real \<Rightarrow> box list \<Rightarrow> wdetection list option" where
  "process_boxes nms thr [] = Some []"
| "process_boxes nms thr (b # bs) =
     (if b_conf b \<ge> thr
      then (case map_of nms (b_cls b) of
              None \<Rightarrow> None
            | Some cn \<Rightarrow> map_option ((#) (make_detection cn b)) (process_boxes nms thr bs))
      else process_boxes nms thr bs)"

fun process_yolo_results :: "yolo_result list \<Rightarrow> real \<Rightarrow> wdetection list option" where
  "process_yolo_results [] thr = Some []"
| "process_yolo_results (r # rs) thr =
     (case res_boxes r of
        None \<Rightarrow> process_yolo_results rs thr
      | Some bs \<Rightarrow>
          (case process_boxes (res_names r) thr bs of
             None \<Rightarrow> None
           | Some ds \<Rightarrow> map_option ((@) ds) (process_yolo_results rs thr)))"

definition get_recommended_action :: "string \<Rightarrow> string" where
  "get_recommended_action object_class =
     (case map_of [(''fire'', ''Immediate evacuation and fire suppression''),
                   (''smoke'', ''Investigate source and prepare for evacuation''),
                   (''person'', ''Monitor activity and verify authorization''),
                   (''vehicle'', ''Check for authorized access''),
                   (''animal'', ''Monitor behavior and ensure safety'')] (lower object_class) of
        Some a \<Rightarrow> a
      | None \<Rightarrow> ''Monitor situation and take appropriate action'')"

definition critical_classes :: "string list" where
  "critical_classes = [''fire'', ''smoke'', ''person'', ''danger'']"

definition make_alerts :: "wdetection list \<Rightarrow> alert list option" where
  "make_alerts ds =
     (let high = filter (\<lambda>d. d_confidence d > 0.8 \<and> lower (d_class d) \<in> set critical_classes) ds
      in if high = [] then None
         else Some (map (\<lambda>d. \<lparr>a_type = upper (d_class d) @ ''_DETECTED'',
                               a_severity = (if d_confidence d > 0.9 then ''HIGH'' else ''MEDIUM''),
                               a_confidence = d_confidence d,
                               a_recommended_action = get_recommended_action (d_class d)\<rparr>) high))"

text \<open>
  The head of \<open>detect_objects\<close>: the counter, the cleanup every 20 requests and the
  reload check, all before the request is looked at.
\<close>

definition maintenance :: "worker_env \<Rightarrow> worker \<Rightarrow> worker \<times> worker_event list" where
  "maintenance env w =
     (let w1 = w\<lparr>request_counter := request_counter w + 1\<rparr>;
          ev1 = (if request_counter w1 mod gc_interval = 0
                 then LogCleanup (request_counter w1) # free_memory env @ [LogCleanupDone]
                 else [])
      in case reload_models_if_needed env w1 of (w2, ev2) \<Rightarrow> (w2, ev1 @ ev2))"

text \<open>\<open>data.get("model", CONFIG["default_model"].replace(".pt", ""))\<close> and its like.\<close>

definition requested_model :: "detect_request \<Rightarrow> string" where
  "requested_model data = (case dq_model data of Some m \<Rightarrow> m | None \<Rightarrow> replace_pt default_model)"

definition requested_threshold :: "detect_request \<Rightarrow> real" where
  "requested_threshold data = (case dq_threshold data of Some t \<Rightarrow> t | None \<Rightarrow> default_confidence)"

definition reply_status :: "reply \<Rightarrow> int" where
  "reply_status r = (case r of Reply st b \<Rightarrow> st)"

definition detect_objects ::
  "worker_env \<Rightarrow> worker \<Rightarrow> request_body \<Rightarrow> worker \<times> worker_event list \<times> reply" where
  "detect_objects env w body =
     (case maintenance env w of (w2, ev) \<Rightarrow>
        (case body of
           NotJson \<Rightarrow> (w2, ev, Reply 400 (ErrorMsg ''Request must be JSON''))
         | BadJson \<Rightarrow> (w2, ev, Reply 500 InternalError)
         | Json data \<Rightarrow>
             (case dq_image data of
                None \<Rightarrow> (w2, ev, Reply 400 (ErrorMsg ''No image provided''))
              | Some image_b64 \<Rightarrow>
                  let model_name = requested_model data;
                      confidence_threshold = requested_threshold data;
                      dev = (case dq_device_id data of Some d \<Rightarrow> d | None \<Rightarrow> ''unknown'')
                  in (case map_of (models w2) model_name of
                        None \<Rightarrow> (w2, ev, Reply 400 (ModelNotFound model_name (map fst (models w2))))
                      | Some model \<Rightarrow>
                          (case decode_base64_image env image_b64 of
                             None \<Rightarrow> (w2, ev, Reply 400 (ErrorMsg ''Failed to decode image''))
                           | Some img \<Rightarrow>
                               (case predict env model img confidence_threshold of
                                  None \<Rightarrow> (w2, ev, Reply 500 InternalError)
                                | Some results \<Rightarrow>
                                    (case process_yolo_results results confidence_threshold of
                                       None \<Rightarrow> (w2, ev, Reply 500 InternalError)
                                     | Some dets \<Rightarrow>
                                         (w2,
                                          ev @ (if request_counter w2 > 200 then [GcCollect] else []),
                                          Reply 200 (Detected
                                            \<lparr>resp_detections = dets,
                                             resp_processing_time_ms =
                                               py_round ((t_end env - t_start env) * 1000) 2,
                                             resp_model_used = model_name,
                                             resp_confidence_threshold = confidence_threshold,
                                             resp_image_size = (img_width img, img_height img),
                                             resp_device_id = dev,
                                             resp_detection_count = length dets,
                                             resp_request_count = request_counter w2,
                                             resp_alerts = make_alerts dets\<rparr>)))))))))"

text \<open>
  A sequence of \<open>detect_objects\<close> calls, each with its environment and its request:
  the worker after all of them, and the events and the reply of the last one.
\<close>

fun serve :: "worker \<Rightarrow> (worker_env \<times> request_body) list \<Rightarrow> worker" where
  "serve w [] = w"
| "serve w ((env, body) # calls) = serve (fst (detect_objects env w body)) calls"

definition initial_worker :: "model_table \<Rightarrow> worker" where
  "initial_worker ms = \<lparr>models = ms, request_counter = 0, last_model_reload = 0\<rparr>"

section \<open>Supervisor (start\_complete\_system.py)\<close>

text \<open>
  \<open>self.processes\<close> is a list of (name, process) pairs; a process is known by its
  identifier. \<open>ai_server_restart_count\<close> lives as long as the monitor thread.
\<close>

record supervisor =
  processes :: "(string \<times> nat) list"
  ai_server_restart_count :: nat

definition max_ai_server_restarts :: nat where
  "max_ai_server_restarts = 3"

text \<open>
  The health probe \<open>GET /api/status\<close> of one pass: status 200 with the
  \<open>request_count\<close> of the body, another status, or an exception (also one raised while
  the body is read).
\<close>

datatype probe_result = ProbeOk int | ProbeStatus int | ProbeRaised

datatype sup_event =
  LogStopped string
| LogRestartAttempt nat
| StartAiServer
| LogRestarted
| LogRestartFailed
| LogNotResponding
| LogNotHealthy int
| LogMemoryLimit int
| LogFailSoon
| LogRunning "string list"
| LogForcingRestart
| Terminate nat
| Kill nat
| Pause real
| LogUnresponsiveRestarted
| LogUnresponsiveRestartFailed

text \<open>
  The environment of one pass of \<open>monitor_loop\<close>: \<open>process.poll() is None\<close> inside the
  loop over the processes and in the check after it, the probe, the outcome of each
  call of \<open>start_ai_server\<close> in the pass (\<open>None\<close> when the new server does not come up),
  and whether a process leaves within the 5 seconds \<open>process.wait\<close> gives it after
  \<open>terminate\<close>.
\<close>

record monitor_env =
  alive_in_loop :: "nat \<Rightarrow> bool"
  alive_after_loop :: "nat \<Rightarrow> bool"
  probe :: probe_result
  start_ai_server :: "nat \<Rightarrow> nat option"
  exits_on_terminate :: "nat \<Rightarrow> bool"

record loop_state =
  ls_processes :: "(string \<times> nat) list"
  ls_count :: nat
  ls_running :: "string list"
  ls_responsive :: bool
  ls_starts :: nat
  ls_events :: "sup_event list"

definition not_ai_server :: "string \<times> nat \<Rightarrow> bool" where
  "not_ai_server np = (fst np \<noteq> ''AI Server'')"

text \<open>The body of \<open>for i, (name, process) in enumerate(self.processes)\<close>.\<close>

definition check_process :: "monitor_env \<Rightarrow> loop_state \<Rightarrow> string \<times> nat \<Rightarrow> loop_state" where
  "check_process env st np =
     (case np of (name, process) \<Rightarrow>
        if alive_in_loop env process
        then (let st1 = st\<lparr>ls_running := ls_running st @ [name]\<rparr>
              in if name = ''AI Server''
                 then (case probe env of
                         ProbeOk rc \<Rightarrow>
                           st1\<lparr>ls_responsive := True,
                               ls_events := ls_events st1 @
                                 (if rc > 220
                                  then LogMemoryLimit rc # (if rc > 240 then [LogFailSoon] else [])
                                  else [])\<rparr>
                       | ProbeStatus code \<Rightarrow>
                           st1\<lparr>ls_events := ls_events st1 @ [LogNotHealthy code]\<rparr>
                       | ProbeRaised \<Rightarrow>
                           st1\<lparr>ls_responsive := False,
                               ls_events := ls_events st1 @ [LogNotResponding]\<rparr>)
                 else st1)
        else (let st1 = st\<lparr>ls_events := ls_events st @ [LogStopped name]\<rparr>
              in if name = ''AI Server'' \<and> ls_count st1 < max_ai_server_restarts
                 then (let ps = filter not_ai_server (ls_processes st1);
                           st2 = st1\<lparr>ls_processes := ps, ls_starts := ls_starts st1 + 1,
                                     ls_events := ls_events st1 @
                                       [LogRestartAttempt (ls_count st1 + 1), StartAiServer]\<rparr>
                       in case start_ai_server env (ls_starts st1) of
                            Some new_ai_server \<Rightarrow>
                              st2\<lparr>ls_processes := ps @ [(''AI Server'', new_ai_server)],
                                  ls_count := ls_count st2 + 1,
                                  ls_events := ls_events st2 @ [LogRestarted]\<rparr>
                          | None \<Rightarrow> st2\<lparr>ls_events := ls_events st2 @ [LogRestartFailed]\<rparr>)
                 else st1))"

text \<open>
  The \<open>try: process.terminate(); process.wait(timeout=5)\<close> with its
  \<open>except: process.kill()\<close>, for every entry named AI Server.
\<close>

fun stop_ai_servers :: "monitor_env \<Rightarrow> (string \<times> nat) list \<Rightarrow> sup_event list" where
  "stop_ai_servers env [] = []"
| "stop_ai_servers env ((name, process) # ps) =
     (if name = ''AI Server''
      then Terminate process # (if exits_on_terminate env process then [] else [Kill process])
      else []) @ stop_ai_servers env ps"

text \<open>One pass of the body of \<open>while True\<close> in \<open>monitor_loop\<close>, after its \<open>time.sleep(10)\<close>.\<close>

definition monitor_pass :: "monitor_env \<Rightarrow> supervisor \<Rightarrow> supervisor \<times> sup_event list" where
  "monitor_pass env s =
     (let st = foldl (check_process env)
                 \<lparr>ls_processes = processes s, ls_count = ai_server_restart_count s,
                  ls_running = [], ls_responsive = False, ls_starts = 0, ls_events = []\<rparr>
                 (processes s);
          ev1 = ls_events st @
                (if length (ls_running st) \<noteq> length (ls_processes st)
                 then [LogRunning (ls_running st)] else []);
          ai_server_process_running =
            list_ex (\<lambda>np. fst np = ''AI Server'' \<and> alive_after_loop env (snd np))
              (ls_processes st)
      in if ai_server_process_running \<and> \<not> ls_responsive st \<and> ls_count st < max_ai_server_restarts
         then (let ev2 = ev1 @ [LogForcingRestart] @ stop_ai_servers env (ls_processes st) @
                         [Pause 2, StartAiServer];
                   ps = filter not_ai_server (ls_processes st)
               in case start_ai_server env (ls_starts st) of
                    Some new_ai_server \<Rightarrow>
                      (\<lparr>processes = ps @ [(''AI Server'', new_ai_server)],
                        ai_server_restart_count = ls_count st + 1\<rparr>,
                       ev2 @ [LogUnresponsiveRestarted])
                  | None \<Rightarrow>
                      (\<lparr>processes = ps, ai_server_restart_count = ls_count st\<rparr>,
                       ev2 @ [LogUnresponsiveRestartFailed]))
         else (\<lparr>processes = ls_processes st, ai_server_restart_count = ls_count st\<rparr>, ev1))"


text \<open>
  The supervisor as \<open>launch\<close> leaves it when every component has started, the restart
  counter at 0 as \<open>monitor_loop\<close> sets it.
\<close>

definition launched :: "nat \<Rightarrow> nat \<Rightarrow> nat \<Rightarrow> supervisor" where
  "launched ai dash sim =
     \<lparr>processes = [(''AI Server'', ai), (''Dashboard'', dash), (''ESP32-CAM Simulator'', sim)],
      ai_server_restart_count = 0\<rparr>"

text \<open>
  The state of a worker whose reloads have all succeeded: the last reload was at the
  last multiple of 100.
\<close>

definition on_schedule :: "worker \<Rightarrow> bool" where
  "on_schedule w \<longleftrightarrow> 0 \<le> request_counter w
     \<and> last_model_reload w = 100 * (request_counter w div 100)"

section \<open>Example inputs\<close>

definition ex_client :: client where
  "ex_client = \<lparr>frame_rate = 1, current_task = ''fire'', fire_on = 0,
     last_detection_time = None, detection_history = [], request_count = 0,
     consecutive_failures = 2, last_successful_request = 0\<rparr>"

definition ex_result :: detect_result where
  "ex_result = \<lparr>detections = [], processing_time_ms = 12, truthy = True\<rparr>"

definition ex_env :: "http_outcome \<Rightarrow> client_env" where
  "ex_env out = \<lparr>dashboard_task = ''fire'', post = (\<lambda>rd t. out), now = 5000000,
     frame = Some ''aGVsbG8='', busy_time = 0\<rparr>"

definition ex_fire :: detect_result where
  "ex_fire = \<lparr>detections = [\<lparr>confidence = 0.6, class_id = Some 0, class_name = ''fire''\<rparr>],
     processing_time_ms = 12, truthy = True\<rparr>"

definition ex_model :: yolo_model where
  "ex_model = \<lparr>model_file = ''fire_detection_final.pt'', model_names = [(0, ''fire'')]\<rparr>"

definition ex_dir :: models_dir where
  "ex_dir = \<lparr>dir_exists = True, makedirs_ok = True,
     listdir = Some [''fire_detection_final.pt'', ''README.md''],
     yolo = (\<lambda>f. if f = ''fire_detection_final.pt'' then Some ex_model else None)\<rparr>"

definition ex_unreadable_dir :: models_dir where
  "ex_unreadable_dir = ex_dir\<lparr>listdir := None\<rparr>"

definition ex_image :: image where
  "ex_image = \<lparr>img_width = 640, img_height = 480, img_data = ''aGVsbG8=''\<rparr>"

definition ex_yolo_result :: yolo_result where
  "ex_yolo_result = \<lparr>res_boxes = Some [\<lparr>b_conf = 0.9, b_cls = 0, b_xyxy = (10, 20, 110, 220)\<rparr>],
     res_names = [(0, ''fire'')]\<rparr>"

definition ex_wenv :: worker_env where
  "ex_wenv = \<lparr>fs_reload = ex_dir, fs_retry = ex_dir, cuda_available = False,
     open_image = (\<lambda>s. if s = ''aGVsbG8='' then Some ex_image else None),
     predict = (\<lambda>m i t. if model_names m = [(0, ''fire'')] then Some [ex_yolo_result] else None),
     t_start = 100, t_end = 100.25\<rparr>"

definition ex_models :: model_table where
  "ex_models = [(''fire_detection_final'', ex_model)]"

definition ex_request :: detect_request where
  "ex_request = \<lparr>dq_image = Some ''aGVsbG8='', dq_model = Some ''fire_detection_final'',
     dq_threshold = Some 0.5, dq_device_id = Some ''ESP32_CAM_SIM_001''\<rparr>"

definition ex_due_worker :: worker where
  "ex_due_worker = \<lparr>models = ex_models, request_counter = 100, last_model_reload = 0\<rparr>"

definition ex_bad_wenv :: worker_env where
  "ex_bad_wenv = ex_wenv\<lparr>fs_reload := ex_unreadable_dir, fs_retry := ex_unreadable_dir\<rparr>"


definition ex_crashed :: monitor_env where
  "ex_crashed = \<lparr>alive_in_loop = (\<lambda>p. p \<noteq> 1), alive_after_loop = (\<lambda>p. p \<noteq> 1),
     probe = ProbeOk 17, start_ai_server = (\<lambda>k. Some (10 + k)),
     exits_on_terminate = (\<lambda>p. True)\<rparr>"

section \<open>Capture client: request timeout and cycle period\<close>

lemma send_failed_count:
  "send_failed c b = (c', r, es) \<Longrightarrow>
     consecutive_failures c' = consecutive_failures c + 1 \<and> r = None"
  by (auto simp: send_failed_def Let_def)

text \<open>
  C8 (as the code has it). The timeout handed to \<open>requests.post\<close> is the constant 15,
  whatever the frame rate: the request sees the HTTP layer only at that timeout. It is
  shorter than the inter-frame interval \<open>1 / frame_rate\<close> exactly when the frame rate is
  below 1/15 frames per second.
\<close>

theorem request_timeout_fixed:
  "send_to_ai_server (env\<lparr>post := \<lambda>rd t. if t = 15 then p rd else q rd t\<rparr>) c img
     = send_to_ai_server (env\<lparr>post := \<lambda>rd t. p rd\<rparr>) c img
   \<and> (0 < fr \<longrightarrow> frame_interval fr = Some (1 / fr)
        \<and> (request_timeout < 1 / fr \<longleftrightarrow> fr < 1 / 15))"
proof -
  have "send_to_ai_server (env\<lparr>post := \<lambda>rd t. if t = 15 then p rd else q rd t\<rparr>) c img
     = send_to_ai_server (env\<lparr>post := \<lambda>rd t. p rd\<rparr>) c img"
    by (simp add: send_to_ai_server_def request_timeout_def Let_def
          split: http_outcome.split option.split)
  moreover have "0 < fr \<longrightarrow> frame_interval fr = Some (1 / fr)
        \<and> (request_timeout < 1 / fr \<longleftrightarrow> fr < 1 / 15)"
    by (auto simp: frame_interval_def request_timeout_def field_simps)
  ultimately show ?thesis by blast
qed

theorem request_timeout_fixed_witness:
  "(0::real) < 1 / 20 \<and> frame_interval (1 / 20) = Some 20 \<and> request_timeout < 20"
  using request_timeout_fixed [where fr = "1 / 20"]
  by simp

text \<open>
  C8 as stated fails at the configured frame rate of 1 frame per second: the interval
  is 1 second and the timeout of 15 seconds is not shorter.
\<close>

theorem request_timeout_counterexample:
  "frame_interval (frame_rate ex_client) = Some 1 \<and> \<not> request_timeout < 1"
  by (simp add: frame_interval_def ex_client_def request_timeout_def)

text \<open>
  C5. A 200 response of the worker (a JSON body) sets \<open>consecutive_failures\<close> to 0; a
  raised exception (timeout, connection error) and a status outside 200..299 add exactly 1.
\<close>

theorem consecutive_failures_law:
  "(post env1 (build_request (dashboard_task env1) img1) request_timeout = Response 200 (Some r)
      \<longrightarrow> consecutive_failures (fst (send_to_ai_server env1 c1 img1)) = 0
        \<and> fst (snd (send_to_ai_server env1 c1 img1)) = Some r)
   \<and> (post env2 (build_request (dashboard_task env2) img2) request_timeout = Raised b
      \<longrightarrow> consecutive_failures (fst (send_to_ai_server env2 c2 img2)) = consecutive_failures c2 + 1
        \<and> fst (snd (send_to_ai_server env2 c2 img2)) = None)
   \<and> (post env3 (build_request (dashboard_task env3) img3) request_timeout = Response st body
        \<and> (st < 200 \<or> 299 < st)
      \<longrightarrow> consecutive_failures (fst (send_to_ai_server env3 c3 img3)) = consecutive_failures c3 + 1
        \<and> fst (snd (send_to_ai_server env3 c3 img3)) = None)"
proof (intro conjI impI)
  assume "post env1 (build_request (dashboard_task env1) img1) request_timeout = Response 200 (Some r)"
  then show "consecutive_failures (fst (send_to_ai_server env1 c1 img1)) = 0"
    and "fst (snd (send_to_ai_server env1 c1 img1)) = Some r"
    by (simp_all add: send_to_ai_server_def Let_def)
next
  assume "post env2 (build_request (dashboard_task env2) img2) request_timeout = Raised b"
  then show "consecutive_failures (fst (send_to_ai_server env2 c2 img2)) = consecutive_failures c2 + 1"
    and "fst (snd (send_to_ai_server env2 c2 img2)) = None"
    by (simp_all add: send_to_ai_server_def send_failed_def Let_def)
next
  assume "post env3 (build_request (dashboard_task env3) img3) request_timeout = Response st body
        \<and> (st < 200 \<or> 299 < st)"
  then show "consecutive_failures (fst (send_to_ai_server env3 c3 img3)) = consecutive_failures c3 + 1"
    and "fst (snd (send_to_ai_server env3 c3 img3)) = None"
    by (auto simp: send_to_ai_server_def Let_def)
qed

theorem consecutive_failures_law_witness:
  "consecutive_failures (fst (send_to_ai_server (ex_env (Response 200 (Some ex_result))) ex_client ''aGVsbG8='')) = 0
   \<and> consecutive_failures (fst (send_to_ai_server (ex_env (Raised True)) ex_client ''aGVsbG8='')) = 3
   \<and> consecutive_failures (fst (send_to_ai_server (ex_env (Response 500 None)) ex_client ''aGVsbG8='')) = 3"
  using consecutive_failures_law [where ?env1.0 = "ex_env (Response 200 (Some ex_result))"
      and ?env2.0 = "ex_env (Raised True)" and ?env3.0 = "ex_env (Response 500 None)"
      and ?c1.0 = ex_client and ?c2.0 = ex_client and ?c3.0 = ex_client
      and ?img1.0 = "''aGVsbG8=''" and ?img2.0 = "''aGVsbG8=''" and ?img3.0 = "''aGVsbG8=''"
      and r = ex_result and b = True and st = 500 and body = None]
  by (simp add: ex_env_def ex_client_def)

section \<open>Alarm flag: the grace window\<close>

lemma process_keeps_task:
  "current_task (fst (process_detection_result t c r)) = current_task c"
  by (simp add: process_detection_result_def Let_def split: prod.split option.split)

lemma timedelta_seconds_small:
  "0 \<le> d \<Longrightarrow> d < 31000000 \<Longrightarrow> timedelta_seconds d \<le> grace_seconds"
proof -
  assume d: "0 \<le> d" "d < 31000000"
  then have "d div 1000000 < 31" by (simp add: div_less_iff_less_mult)
  moreover from d have "0 \<le> d div 1000000" by (simp add: pos_imp_zdiv_nonneg_iff)
  ultimately show ?thesis
    by (simp add: timedelta_seconds_def grace_seconds_def)
qed

lemma process_negative_in_grace:
  assumes "\<not> fst (scan_detections (current_task c) (detections r))"
    and "fire_on c = 1" and "last_detection_time c = Some t0"
    and "t0 \<le> t" and "t - t0 < 31000000"
  shows "fire_on (fst (process_detection_result t c r)) = 1
       \<and> last_detection_time (fst (process_detection_result t c r)) = Some t0"
proof -
  obtain td mc tds where sc: "scan_detections (current_task c) (detections r) = (td, mc, tds)"
    by (cases "scan_detections (current_task c) (detections r)")
  with assms have "\<not> td" by simp
  with sc assms timedelta_seconds_small [of "t - t0"] show ?thesis
    by (simp add: process_detection_result_def Let_def)
qed

lemma process_positive:
  assumes "fst (scan_detections (current_task c) (detections r))"
  shows "fire_on (fst (process_detection_result t c r)) = 1
       \<and> last_detection_time (fst (process_detection_result t c r)) = Some t"
proof -
  obtain td mc tds where sc: "scan_detections (current_task c) (detections r) = (td, mc, tds)"
    by (cases "scan_detections (current_task c) (detections r)")
  with assms have "td" by simp
  with sc show ?thesis
    by (simp add: process_detection_result_def Let_def)
qed

lemma observe_negatives_in_grace:
  assumes "\<forall>(t, r) \<in> set evs. \<not> fst (scan_detections (current_task c) (detections r))
              \<and> t0 \<le> t \<and> t - t0 < 31000000"
    and "fire_on c = 1" and "last_detection_time c = Some t0"
  shows "fire_on (observe_all c evs) = 1 \<and> last_detection_time (observe_all c evs) = Some t0"
  using assms
proof (induction evs arbitrary: c)
  case Nil
  then show ?case by simp
next
  case (Cons e evs)
  obtain t r where e: "e = (t, r)" by (cases e)
  let ?c = "fst (process_detection_result t c r)"
  have step: "fire_on ?c = 1 \<and> last_detection_time ?c = Some t0"
    using Cons.prems e by (intro process_negative_in_grace) auto
  have "\<forall>(t, r) \<in> set evs. \<not> fst (scan_detections (current_task ?c) (detections r))
              \<and> t0 \<le> t \<and> t - t0 < 31000000"
    using Cons.prems(1) by (simp add: process_keeps_task)
  with step Cons.IH [of ?c] show ?case by (simp add: e)
qed

text \<open>
  C3. After a positive detection at time \<open>t0\<close>, with only negative results after it and a
  clock that does not run backwards: as long as every later result is processed within
  30 seconds of \<open>t0\<close> the flag \<open>fire_on\<close> is still 1; and if the flag is no longer 1 after a
  run of negatives, one of them was processed more than 30 seconds after \<open>t0\<close>.
\<close>

theorem alarm_grace_window:
  "(fst (scan_detections (current_task c) (detections r0))
      \<and> (\<forall>(t, r) \<in> set evs. \<not> fst (scan_detections (current_task c) (detections r))
              \<and> t0 \<le> t \<and> t - t0 \<le> 30 * 1000000)
     \<longrightarrow> fire_on (observe_all c ((t0, r0) # evs)) = 1)
   \<and> (fst (scan_detections (current_task c) (detections r0'))
      \<and> (\<forall>(t, r) \<in> set evs'. \<not> fst (scan_detections (current_task c) (detections r)) \<and> t0' \<le> t)
      \<and> fire_on (observe_all c ((t0', r0') # evs')) \<noteq> 1
     \<longrightarrow> (\<exists>(t, r) \<in> set evs'. 30 * 1000000 < t - t0'))"
proof (intro conjI impI)
  assume a: "fst (scan_detections (current_task c) (detections r0))
      \<and> (\<forall>(t, r) \<in> set evs. \<not> fst (scan_detections (current_task c) (detections r))
              \<and> t0 \<le> t \<and> t - t0 \<le> 30 * 1000000)"
  let ?c = "fst (process_detection_result t0 c r0)"
  have "fire_on ?c = 1 \<and> last_detection_time ?c = Some t0"
    using a process_positive by blast
  moreover have "\<forall>(t, r) \<in> set evs. \<not> fst (scan_detections (current_task ?c) (detections r))
              \<and> t0 \<le> t \<and> t - t0 < 31000000"
    using a by (auto simp: process_keeps_task)
  ultimately show "fire_on (observe_all c ((t0, r0) # evs)) = 1"
    using observe_negatives_in_grace [of evs ?c t0] by simp
next
  assume a: "fst (scan_detections (current_task c) (detections r0'))
      \<and> (\<forall>(t, r) \<in> set evs'. \<not> fst (scan_detections (current_task c) (detections r)) \<and> t0' \<le> t)
      \<and> fire_on (observe_all c ((t0', r0') # evs')) \<noteq> 1"
  let ?c = "fst (process_detection_result t0' c r0')"
  show "\<exists>(t, r) \<in> set evs'. 30 * 1000000 < t - t0'"
  proof (rule ccontr)
    assume "\<not> (\<exists>(t, r) \<in> set evs'. 30 * 1000000 < t - t0')"
    then have "\<forall>(t, r) \<in> set evs'. \<not> fst (scan_detections (current_task ?c) (detections r))
              \<and> t0' \<le> t \<and> t - t0' < 31000000"
      using a by (auto simp: process_keeps_task)
    moreover have "fire_on ?c = 1 \<and> last_detection_time ?c = Some t0'"
      using a process_positive by blast
    ultimately have "fire_on (observe_all c ((t0', r0') # evs')) = 1"
      using observe_negatives_in_grace [of evs' ?c t0'] by simp
    with a show False by simp
  qed
qed


theorem alarm_grace_window_witness:
  "fire_on (observe_all ex_client
      [(0, ex_fire), (10000000, ex_result), (20000000, ex_result), (30000000, ex_result)]) = 1
   \<and> (\<exists>(t, r) \<in> set [(10000000, ex_result), (40000000, ex_result)]. 30 * 1000000 < t - (0::int))"
  using alarm_grace_window [where c = ex_client and ?t0.0 = 0 and ?r0.0 = ex_fire
      and evs = "[(10000000, ex_result), (20000000, ex_result), (30000000, ex_result)]"
      and ?t0' = 0 and ?r0' = ex_fire
      and evs' = "[(10000000, ex_result), (40000000, ex_result)]"]
  by (simp add: ex_client_def ex_fire_def ex_result_def scan_detections_def scan_detection_def
      is_target_def process_detection_result_def Let_def timedelta_seconds_def grace_seconds_def
      keep_last_100_def)

section \<open>Capture client: delay after failures\<close>

lemma total_sleep_append: "total_sleep (a @ b) = total_sleep a + total_sleep b"
  by (simp add: total_sleep_def)

lemma total_sleep_simps:
  "total_sleep [] = 0"
  "total_sleep (Sleep d # es) = d + total_sleep es"
  "total_sleep (LogNoResult # es) = total_sleep es"
  by (simp_all add: total_sleep_def)

lemma send_failed_sleep: "0 \<le> total_sleep (snd (snd (send_failed c b)))"
  by (simp add: send_failed_def Let_def total_sleep_def)

lemma send_sleep_nonneg: "0 \<le> total_sleep (snd (snd (send_to_ai_server env c img)))"
  using send_failed_sleep
  by (auto simp: send_to_ai_server_def Let_def total_sleep_def send_failed_def
      split: http_outcome.split option.split)

lemma capture_cycle_failed:
  assumes "frame env = Some img" and "img \<noteq> []"
    and "case fst (snd (send_to_ai_server env c img)) of None \<Rightarrow> True | Some r \<Rightarrow> \<not> truthy r"
  shows "capture_cycle env interval c =
     (let e1 = snd (snd (send_to_ai_server env c img));
          elapsed = busy_time env + total_sleep e1 + 2
      in (fst (send_to_ai_server env c img),
          e1 @ [LogNoResult, Sleep 2, Sleep (max 0 (interval - elapsed))],
          max interval elapsed))"
proof -
  obtain c1 res e1 where s: "send_to_ai_server env c img = (c1, res, e1)"
    by (cases "send_to_ai_server env c img")
  with assms(3) have "case res of None \<Rightarrow> True | Some r \<Rightarrow> \<not> truthy r" by simp
  with s assms(1,2) show ?thesis
    by (cases res)
       (simp_all add: capture_cycle_def Let_def total_sleep_append total_sleep_simps max_def)
qed

lemma send_raised_effects:
  assumes "post env (build_request (dashboard_task env) img) request_timeout = Raised b"
  shows "(3 \<le> consecutive_failures c + 1 \<longrightarrow>
            LogHealthCritical (consecutive_failures c + 1) \<in> set (snd (snd (send_to_ai_server env c img))))
       \<and> (5 \<le> consecutive_failures c + 1 \<longrightarrow>
            Sleep 10 \<in> set (snd (snd (send_to_ai_server env c img))))
       \<and> fst (snd (send_to_ai_server env c img)) = None"
  using assms by (simp add: send_to_ai_server_def send_failed_def Let_def)

text \<open>
  C6 (as the code has it). On every cycle whose request gives no result (\<open>None\<close>, or a
  reply whose JSON value is falsy) the client logs the failure and sleeps a fixed 2 seconds; the cycle then lasts the larger of the frame
  interval and the time elapsed, so the delay before the next cycle is never below the
  interval and is strictly above it when the interval is below 2 seconds. When the
  failure is a raised exception, a health-critical message is logged once
  \<open>consecutive_failures\<close> has reached 3, and a further 10 seconds are slept once it has
  reached 5.
\<close>

theorem failed_cycle_delay:
  assumes "frame env = Some img" and "img \<noteq> []" and "0 \<le> busy_time env"
  shows "((case fst (snd (send_to_ai_server env c img)) of
             None \<Rightarrow> True | Some r \<Rightarrow> \<not> truthy r) \<longrightarrow>
            LogNoResult \<in> set (fst (snd (capture_cycle env interval c)))
          \<and> Sleep 2 \<in> set (fst (snd (capture_cycle env interval c)))
          \<and> interval \<le> snd (snd (capture_cycle env interval c))
          \<and> (interval < 2 \<longrightarrow> interval < snd (snd (capture_cycle env interval c))))
       \<and> (post env (build_request (dashboard_task env) img) request_timeout = Raised b \<longrightarrow>
            (3 \<le> consecutive_failures c + 1 \<longrightarrow>
               LogHealthCritical (consecutive_failures c + 1) \<in> set (fst (snd (capture_cycle env interval c))))
          \<and> (5 \<le> consecutive_failures c + 1 \<longrightarrow>
               Sleep 10 \<in> set (fst (snd (capture_cycle env interval c)))))"
proof (intro conjI impI)
  assume n: "case fst (snd (send_to_ai_server env c img)) of
             None \<Rightarrow> True | Some r \<Rightarrow> \<not> truthy r"
  note cc = capture_cycle_failed [OF assms(1,2) n, of interval]
  show "LogNoResult \<in> set (fst (snd (capture_cycle env interval c)))"
    and "Sleep 2 \<in> set (fst (snd (capture_cycle env interval c)))"
    and "interval \<le> snd (snd (capture_cycle env interval c))"
    by (simp_all add: cc Let_def)
  show "interval < snd (snd (capture_cycle env interval c))" if "interval < 2"
    using that assms(3) send_sleep_nonneg [of env c img] by (simp add: cc Let_def)
next
  assume r: "post env (build_request (dashboard_task env) img) request_timeout = Raised b"
  note e = send_raised_effects [OF r, of c]
  then have n: "case fst (snd (send_to_ai_server env c img)) of
             None \<Rightarrow> True | Some r \<Rightarrow> \<not> truthy r" by simp
  note cc = capture_cycle_failed [OF assms(1,2) n, of interval]
  show "LogHealthCritical (consecutive_failures c + 1) \<in> set (fst (snd (capture_cycle env interval c)))"
    if "3 \<le> consecutive_failures c + 1"
    using that e by (simp add: cc Let_def)
  show "Sleep 10 \<in> set (fst (snd (capture_cycle env interval c)))"
    if "5 \<le> consecutive_failures c + 1"
    using that e by (simp add: cc Let_def)
qed

theorem failed_cycle_delay_witness:
  "LogNoResult \<in> set (fst (snd (capture_cycle (ex_env (Raised True)) 1 (ex_client\<lparr>consecutive_failures := 4\<rparr>))))
   \<and> Sleep 2 \<in> set (fst (snd (capture_cycle (ex_env (Raised True)) 1 (ex_client\<lparr>consecutive_failures := 4\<rparr>))))
   \<and> LogHealthCritical 5 \<in> set (fst (snd (capture_cycle (ex_env (Raised True)) 1 (ex_client\<lparr>consecutive_failures := 4\<rparr>))))
   \<and> Sleep 10 \<in> set (fst (snd (capture_cycle (ex_env (Raised True)) 1 (ex_client\<lparr>consecutive_failures := 4\<rparr>))))
   \<and> 1 < snd (snd (capture_cycle (ex_env (Raised True)) 1 (ex_client\<lparr>consecutive_failures := 4\<rparr>)))
   \<and> Sleep 2 \<in> set (fst (snd (capture_cycle
         (ex_env (Response 200 (Some (ex_result\<lparr>truthy := False\<rparr>)))) 1 ex_client)))
   \<and> 1 < snd (snd (capture_cycle
         (ex_env (Response 200 (Some (ex_result\<lparr>truthy := False\<rparr>)))) 1 ex_client))"
  using failed_cycle_delay [where env = "ex_env (Raised True)" and img = "''aGVsbG8=''"
      and c = "ex_client\<lparr>consecutive_failures := 4\<rparr>" and interval = 1 and b = True]
    send_raised_effects [where env = "ex_env (Raised True)" and img = "''aGVsbG8=''"
      and c = "ex_client\<lparr>consecutive_failures := 4\<rparr>" and b = True]
    failed_cycle_delay [where env = "ex_env (Response 200 (Some (ex_result\<lparr>truthy := False\<rparr>)))"
      and img = "''aGVsbG8=''" and c = ex_client and interval = 1 and b = True]
  by (simp add: ex_env_def ex_client_def ex_result_def send_to_ai_server_def Let_def)

text \<open>
  C6 as stated fails at a frame rate of 0.1 frames per second: the third consecutive
  failure (a refused connection) logs the health-critical message, sleeps 2 seconds
  and no 10, and the next cycle starts exactly one frame interval after this one.
\<close>

theorem failed_cycle_delay_counterexample:
  "frame_interval (frame_rate (ex_client\<lparr>frame_rate := 1 / 10\<rparr>)) = Some 10
   \<and> consecutive_failures (fst (capture_cycle (ex_env (Raised False)) 10 (ex_client\<lparr>frame_rate := 1 / 10\<rparr>))) = 3
   \<and> fst (snd (capture_cycle (ex_env (Raised False)) 10 (ex_client\<lparr>frame_rate := 1 / 10\<rparr>)))
       = [LogSendFailed, LogHealthCritical 3, LogNoResult, Sleep 2, Sleep 8]
   \<and> \<not> 10 < snd (snd (capture_cycle (ex_env (Raised False)) 10 (ex_client\<lparr>frame_rate := 1 / 10\<rparr>)))"
  by (simp add: frame_interval_def capture_cycle_def send_to_ai_server_def send_failed_def
      ex_env_def ex_client_def Let_def total_sleep_def request_timeout_def)

section \<open>Worker: maintenance runs before validation\<close>

lemma reload_counter:
  "request_counter (fst (reload_models_if_needed env w)) = request_counter w"
  by (simp add: reload_models_if_needed_def Let_def split: prod.split bool.split)

lemma maintenance_counter:
  "request_counter (fst (maintenance env w)) = request_counter w + 1"
proof -
  obtain w2 ev2 where r: "reload_models_if_needed env (w\<lparr>request_counter := request_counter w + 1\<rparr>) = (w2, ev2)"
    by (cases "reload_models_if_needed env (w\<lparr>request_counter := request_counter w + 1\<rparr>)")
  have "request_counter w2 = request_counter w + 1"
    using reload_counter [of env "w\<lparr>request_counter := request_counter w + 1\<rparr>"] r by simp
  with r show ?thesis by (simp add: maintenance_def Let_def)
qed

lemma detect_state: "fst (detect_objects env w body) = fst (maintenance env w)"
  by (simp add: detect_objects_def Let_def
      split: prod.split request_body.split option.split)

lemma detect_events:
  "fst (snd (detect_objects env w body)) =
     snd (maintenance env w) @
     (if reply_status (snd (snd (detect_objects env w body))) = 200
         \<and> request_counter w + 1 > 200 then [GcCollect] else [])"
proof -
  obtain w2 ev where m: "maintenance env w = (w2, ev)" by (cases "maintenance env w")
  then have "request_counter w2 = request_counter w + 1"
    using maintenance_counter [of env w] by simp
  with m show ?thesis
    by (simp add: detect_objects_def Let_def reply_status_def
        split: request_body.split option.split)
qed


section \<open>Worker: the maintenance schedule\<close>

lemma free_memory_count: "count_list (free_memory env) GcCollect = 1"
  by (simp add: free_memory_def)

lemma free_memory_logs:
  "LogCleanup k \<notin> set (free_memory env)" "LogReloading k \<notin> set (free_memory env)"
  by (simp_all add: free_memory_def)

lemma reload_events:
  "snd (reload_models_if_needed env w) =
     (if reload_due w
      then LogReloading (request_counter w) # free_memory env @
           [if fst (load_models (fs_reload env) []) then LogReloadFailed else LogReloaded]
      else [])"
  by (simp add: reload_models_if_needed_def Let_def split: prod.split bool.split)

lemma reload_last:
  "last_model_reload (fst (reload_models_if_needed env w)) =
     (if reload_due w \<and> \<not> fst (load_models (fs_reload env) [])
      then request_counter w else last_model_reload w)"
  by (simp add: reload_models_if_needed_def Let_def split: prod.split bool.split)

lemma maintenance_events:
  "snd (maintenance env w) =
     (if (request_counter w + 1) mod gc_interval = 0
      then LogCleanup (request_counter w + 1) # free_memory env @ [LogCleanupDone] else []) @
     snd (reload_models_if_needed env (w\<lparr>request_counter := request_counter w + 1\<rparr>))"
  by (simp add: maintenance_def Let_def split: prod.split)

lemma maintenance_last:
  "last_model_reload (fst (maintenance env w)) =
     (if request_counter w + 1 - last_model_reload w \<ge> reload_interval
         \<and> \<not> fst (load_models (fs_reload env) [])
      then request_counter w + 1 else last_model_reload w)"
proof -
  have "fst (maintenance env w) =
      fst (reload_models_if_needed env (w\<lparr>request_counter := request_counter w + 1\<rparr>))"
    by (simp add: maintenance_def Let_def split: prod.split)
  then show ?thesis by (simp add: reload_last reload_due_def)
qed

lemma maintenance_cleanup_iff:
  "LogCleanup k \<in> set (snd (maintenance env w))
     \<longleftrightarrow> k = request_counter w + 1 \<and> (request_counter w + 1) mod gc_interval = 0"
  by (auto simp: maintenance_events reload_events free_memory_logs)

lemma maintenance_reload_iff:
  "LogReloading k \<in> set (snd (maintenance env w))
     \<longleftrightarrow> k = request_counter w + 1
         \<and> request_counter w + 1 - last_model_reload w \<ge> reload_interval"
  by (auto simp: maintenance_events reload_events free_memory_logs reload_due_def)

lemma maintenance_gc_count:
  "count_list (snd (maintenance env w)) GcCollect =
     (if (request_counter w + 1) mod gc_interval = 0 then 1 else 0) +
     (if request_counter w + 1 - last_model_reload w \<ge> reload_interval then 1 else 0)"
  by (simp add: maintenance_events reload_events free_memory_count reload_due_def)

lemma schedule_arith:
  fixes c :: int
  assumes "0 \<le> c"
  shows "(100 \<le> c + 1 - 100 * (c div 100)) = ((c + 1) mod 100 = 0)"
    and "(c + 1) mod 100 = 0 \<Longrightarrow> c + 1 = 100 * ((c + 1) div 100)"
    and "(c + 1) mod 100 \<noteq> 0 \<Longrightarrow> c div 100 = (c + 1) div 100"
proof -
  define r where "r = c mod 100"
  define q where "q = c div 100"
  have c: "c = 100 * q + r" by (simp add: r_def q_def)
  have r: "0 \<le> r" "r < 100" by (simp_all add: r_def)
  have m: "(c + 1) mod 100 = (r + 1) mod 100"
    unfolding r_def by (simp add: mod_add_left_eq)
  have m0: "((r + 1) mod 100 = 0) = (r = 99)"
  proof (cases "r = 99")
    case True
    then show ?thesis by simp
  next
    case False
    with r have "r + 1 < 100" "0 \<le> r + 1" by simp_all
    then have "(r + 1) mod 100 = r + 1" by (simp add: mod_pos_pos_trivial)
    with False r show ?thesis by simp
  qed
  show "(100 \<le> c + 1 - 100 * (c div 100)) = ((c + 1) mod 100 = 0)"
  proof -
    have "c - 100 * (c div 100) = r" unfolding r_def by (simp add: minus_mult_div_eq_mod)
    then have "c + 1 - 100 * (c div 100) = r + 1" by simp
    then show ?thesis using r m m0 by auto
  qed
  show "c + 1 = 100 * ((c + 1) div 100)" if "(c + 1) mod 100 = 0"
    using that mult_div_mod_eq [of 100 "c + 1"] by simp
  show "c div 100 = (c + 1) div 100" if "(c + 1) mod 100 \<noteq> 0"
  proof -
    from that m m0 r have "r + 1 < 100" by simp
    moreover have "c + 1 = 100 * q + (r + 1)" using c by simp
    ultimately have "(c + 1) div 100 = q"
      using r int_div_pos_eq [of "c + 1" 100 q "r + 1"] by simp
    then show ?thesis by (simp add: q_def)
  qed
qed

lemma on_schedule_step:
  assumes "on_schedule w" and "\<not> fst (load_models (fs_reload env) [])"
  shows "on_schedule (fst (detect_objects env w body))"
proof -
  let ?c = "request_counter w"
  have c: "0 \<le> ?c" and l: "last_model_reload w = 100 * (?c div 100)"
    using assms(1) by (simp_all add: on_schedule_def)
  have due: "(?c + 1 - last_model_reload w \<ge> 100) = ((?c + 1) mod 100 = 0)"
    using schedule_arith(1) [OF c] l by simp
  have "(?c + 1) mod 100 = 0 \<Longrightarrow> ?c + 1 = 100 * ((?c + 1) div 100)"
    using schedule_arith(2) [OF c] by simp
  moreover have "(?c + 1) mod 100 \<noteq> 0 \<Longrightarrow> ?c div 100 = (?c + 1) div 100"
    using schedule_arith(3) [OF c] by simp
  ultimately show ?thesis
    using c l due assms(2)
    by (simp add: on_schedule_def detect_state maintenance_counter maintenance_last
        reload_interval_def)
qed

lemma serve_on_schedule:
  assumes "on_schedule w" and "\<forall>(env, body) \<in> set calls. \<not> fst (load_models (fs_reload env) [])"
  shows "on_schedule (serve w calls)
       \<and> request_counter (serve w calls) = request_counter w + int (length calls)"
  using assms
proof (induction calls arbitrary: w)
  case Nil
  then show ?case by simp
next
  case (Cons a calls)
  obtain env body where a: "a = (env, body)" by (cases a)
  let ?w = "fst (detect_objects env w body)"
  have "on_schedule ?w" using Cons.prems a by (intro on_schedule_step) auto
  moreover have "request_counter ?w = request_counter w + 1"
    by (simp add: detect_state maintenance_counter)
  ultimately show ?case using Cons.IH [of ?w] Cons.prems(2) a by simp
qed

lemma on_schedule_due:
  assumes "on_schedule w"
  shows "(request_counter w + 1 - last_model_reload w \<ge> reload_interval)
      \<longleftrightarrow> (request_counter w + 1) mod 100 = 0"
proof -
  have "0 \<le> request_counter w" and "last_model_reload w = 100 * (request_counter w div 100)"
    using assms by (simp_all add: on_schedule_def)
  then show ?thesis unfolding reload_interval_def
    using schedule_arith(1) [of "request_counter w"] by simp
qed


lemma schedule_core:
  assumes "\<forall>(env, body) \<in> set calls. \<not> fst (load_models (fs_reload env) [])"
  shows "request_counter (serve (initial_worker ms) calls) = int (length calls)
       \<and> ((reload_interval \<le> int (length calls) + 1 - last_model_reload (serve (initial_worker ms) calls))
            \<longleftrightarrow> (int (length calls) + 1) mod 100 = 0)"
proof -
  have "on_schedule (initial_worker ms)" by (simp add: on_schedule_def initial_worker_def)
  from serve_on_schedule [OF this assms]
  have s: "on_schedule (serve (initial_worker ms) calls)"
    and c: "request_counter (serve (initial_worker ms) calls) = int (length calls)"
    by (simp_all add: initial_worker_def)
  from on_schedule_due [OF s] c show ?thesis by simp
qed

lemma serve_counter:
  "request_counter (serve w calls) = request_counter w + int (length calls)"
proof (induction calls arbitrary: w)
  case Nil
  then show ?case by simp
next
  case (Cons a calls)
  obtain env body where a: "a = (env, body)" by (cases a)
  have "request_counter (fst (detect_objects env w body)) = request_counter w + 1"
    by (simp add: detect_state maintenance_counter)
  with Cons.IH [of "fst (detect_objects env w body)"] a show ?case by simp
qed

lemma serve_snoc:
  "serve w (calls @ [(env, body)]) = fst (detect_objects env (serve w calls) body)"
  by (induction calls arbitrary: w) auto

text \<open>
  C2 (as the code has it). Take any sequence of calls from a fresh worker and let \<open>N\<close>
  be the number of the next call. The scheduled cleanup is logged on that call exactly
  when \<open>N mod 20 = 0\<close>; a reload is attempted exactly when the counter is at least 100
  past \<open>last_model_reload\<close>; garbage collection runs once in the cleanup, once more in
  every reload, and once more at the end of every successful call numbered above 200.
  If no reload has raised in the calls before, the reload is due exactly when
  \<open>N mod 100 = 0\<close>.
\<close>

theorem maintenance_schedule:
  "let w = serve (initial_worker ms) calls; N = int (length calls) + 1;
       R = detect_objects env w body; ev = fst (snd R);
       due = (reload_interval \<le> N - last_model_reload w)
   in request_counter (fst R) = N
    \<and> (\<forall>k. LogCleanup k \<in> set ev \<longleftrightarrow> k = N \<and> N mod 20 = 0)
    \<and> (\<forall>k. LogReloading k \<in> set ev \<longleftrightarrow> k = N \<and> due)
    \<and> count_list ev GcCollect =
         (if N mod 20 = 0 then 1 else 0) + (if due then 1 else 0) +
         (if reply_status (snd (snd R)) = 200 \<and> 200 < N then 1 else 0)
    \<and> ((\<forall>(env, body) \<in> set calls. \<not> fst (load_models (fs_reload env) []))
         \<longrightarrow> (due \<longleftrightarrow> N mod 100 = 0))"
proof -
  let ?w = "serve (initial_worker ms) calls"
  have c: "request_counter ?w = int (length calls)"
    by (simp add: serve_counter initial_worker_def)
  have core: "(\<forall>(env, body) \<in> set calls. \<not> fst (load_models (fs_reload env) []))
      \<longrightarrow> ((reload_interval \<le> int (length calls) + 1 - last_model_reload ?w)
            \<longleftrightarrow> (int (length calls) + 1) mod 100 = 0)"
  proof
    assume "\<forall>(env, body) \<in> set calls. \<not> fst (load_models (fs_reload env) [])"
    from schedule_core [OF this, of ms]
    show "(reload_interval \<le> int (length calls) + 1 - last_model_reload ?w)
            \<longleftrightarrow> (int (length calls) + 1) mod 100 = 0" by simp
  qed
  show ?thesis
    unfolding Let_def
    using core c
    by (simp add: detect_state maintenance_counter detect_events maintenance_cleanup_iff
        maintenance_reload_iff maintenance_gc_count gc_interval_def)
qed

lemma ex_bad_load: "fst (load_models (fs_reload ex_bad_wenv) [])"
  by (simp add: ex_bad_wenv_def ex_unreadable_dir_def ex_dir_def load_models_def)

lemma ex_ok_load: "\<not> fst (load_models (fs_reload ex_wenv) [])"
  by (simp add: ex_wenv_def ex_dir_def load_models_def)

lemma ex_last_after_raised:
  "last_model_reload (serve (initial_worker ex_models)
       (replicate 99 (ex_wenv, Json ex_request) @ [(ex_bad_wenv, Json ex_request)])) = 0"
proof -
  let ?calls = "replicate 99 (ex_wenv, Json ex_request)"
  let ?w = "serve (initial_worker ex_models) ?calls"
  have "on_schedule (initial_worker ex_models)"
    by (simp add: on_schedule_def initial_worker_def)
  moreover have "\<forall>(env, body) \<in> set ?calls. \<not> fst (load_models (fs_reload env) [])"
    by (simp add: ex_ok_load)
  ultimately have "on_schedule ?w \<and> request_counter ?w = request_counter (initial_worker ex_models) + int (length ?calls)"
    by (rule serve_on_schedule)
  then have "last_model_reload ?w = 0"
    by (simp add: on_schedule_def initial_worker_def)
  then show ?thesis
    by (simp only: serve_snoc detect_state maintenance_last) (simp add: ex_bad_load)
qed

theorem maintenance_schedule_witness:
  "LogCleanup 100 \<in> set (fst (snd (detect_objects ex_wenv
       (serve (initial_worker ex_models) (replicate 99 (ex_wenv, Json ex_request))) (Json ex_request))))
   \<and> LogReloading 100 \<in> set (fst (snd (detect_objects ex_wenv
       (serve (initial_worker ex_models) (replicate 99 (ex_wenv, Json ex_request))) (Json ex_request))))
   \<and> count_list (fst (snd (detect_objects ex_wenv
       (serve (initial_worker ex_models) (replicate 99 (ex_wenv, Json ex_request))) (Json ex_request))))
       GcCollect = 2
   \<and> LogReloading 101 \<in> set (fst (snd (detect_objects ex_wenv
       (serve (initial_worker ex_models)
          (replicate 99 (ex_wenv, Json ex_request) @ [(ex_bad_wenv, Json ex_request)]))
       (Json ex_request))))"
  using maintenance_schedule [where calls = "replicate 99 (ex_wenv, Json ex_request)"
      and ms = ex_models and env = ex_wenv and body = "Json ex_request"]
    maintenance_schedule [where
      calls = "replicate 99 (ex_wenv, Json ex_request) @ [(ex_bad_wenv, Json ex_request)]"
      and ms = ex_models and env = ex_wenv and body = "Json ex_request"]
  by (simp add: Let_def ex_ok_load ex_last_after_raised reload_interval_def)

lemma ex_load: "load_models ex_dir [] = (False, ex_models)"
  by (simp add: load_models_def ex_dir_def load_one_def endswith_def ex_models_def)

lemma ex_models_step:
  assumes "models w = ex_models"
  shows "models (fst (detect_objects ex_wenv w body)) = ex_models"
  using assms
  by (simp add: detect_state maintenance_def reload_models_if_needed_def Let_def ex_load
      ex_wenv_def)

lemma ex_models_serve:
  "models w = ex_models \<Longrightarrow> models (serve w (replicate n (ex_wenv, body))) = ex_models"
  by (induction n arbitrary: w) (simp_all add: ex_models_step)

lemma ex_reply:
  assumes "models w = ex_models"
  shows "reply_status (snd (snd (detect_objects ex_wenv w (Json ex_request)))) = 200"
proof -
  obtain w2 ev where mt: "maintenance ex_wenv w = (w2, ev)" by (cases "maintenance ex_wenv w")
  have "models (fst (maintenance ex_wenv w)) = ex_models"
    using ex_models_step [OF assms] by (simp add: detect_state)
  with mt have m: "models w2 = ex_models" by simp
  have d: "decode_base64_image ex_wenv ''aGVsbG8='' = Some ex_image"
    by (simp add: decode_base64_image_def ex_wenv_def)
  have p: "predict ex_wenv ex_model ex_image (1 / 2) = Some [ex_yolo_result]"
    by (simp add: ex_wenv_def ex_model_def)
  have y: "process_yolo_results [ex_yolo_result] (1 / 2) \<noteq> None"
    by (simp add: ex_yolo_result_def)
  then obtain dets where y': "process_yolo_results [ex_yolo_result] (1 / 2) = Some dets" by blast
  show ?thesis
    unfolding detect_objects_def mt
    by (simp add: m ex_request_def requested_model_def requested_threshold_def ex_models_def
        d p y' Let_def reply_status_def del: process_yolo_results.simps)
qed

text \<open>
  C2 as stated fails on call 201 of a run of successful requests: a garbage collection
  runs although 201 is not a multiple of 20.
\<close>

theorem maintenance_schedule_counterexample:
  "request_counter (fst (detect_objects ex_wenv
       (serve (initial_worker ex_models) (replicate 200 (ex_wenv, Json ex_request))) (Json ex_request))) = 201
   \<and> GcCollect \<in> set (fst (snd (detect_objects ex_wenv
       (serve (initial_worker ex_models) (replicate 200 (ex_wenv, Json ex_request))) (Json ex_request))))
   \<and> (201 :: int) mod 20 \<noteq> 0"
proof -
  let ?calls = "replicate 200 (ex_wenv, Json ex_request)"
  let ?w = "serve (initial_worker ex_models) ?calls"
  have nr: "\<forall>(env, body) \<in> set ?calls. \<not> fst (load_models (fs_reload env) [])"
    by (simp add: ex_wenv_def ex_load)
  have c: "request_counter ?w = 200" using schedule_core [OF nr, of ex_models] by simp
  have m: "models ?w = ex_models"
    by (rule ex_models_serve) (simp add: initial_worker_def)
  have "GcCollect \<in> set (fst (snd (detect_objects ex_wenv ?w (Json ex_request))))"
    by (simp add: detect_events ex_reply [OF m] c)
  moreover have "request_counter (fst (detect_objects ex_wenv ?w (Json ex_request))) = 201"
    by (simp add: detect_state maintenance_counter c)
  ultimately show ?thesis by simp
qed

section \<open>Worker: the reply of detect\<close>

lemma detect_unfold:
  "detect_objects env w (Json data) =
     (let w2 = fst (maintenance env w); ev = snd (maintenance env w)
      in case dq_image data of
           None \<Rightarrow> (w2, ev, Reply 400 (ErrorMsg ''No image provided''))
         | Some image_b64 \<Rightarrow>
             (case map_of (models w2) (requested_model data) of
                None \<Rightarrow> (w2, ev, Reply 400 (ModelNotFound (requested_model data) (map fst (models w2))))
              | Some model \<Rightarrow>
                  (case decode_base64_image env image_b64 of
                     None \<Rightarrow> (w2, ev, Reply 400 (ErrorMsg ''Failed to decode image''))
                   | Some img \<Rightarrow>
                       (case predict env model img (requested_threshold data) of
                          None \<Rightarrow> (w2, ev, Reply 500 InternalError)
                        | Some results \<Rightarrow>
                            (case process_yolo_results results (requested_threshold data) of
                               None \<Rightarrow> (w2, ev, Reply 500 InternalError)
                             | Some dets \<Rightarrow>
                                 (w2, ev @ (if request_counter w2 > 200 then [GcCollect] else []),
                                  Reply 200 (Detected
                                    \<lparr>resp_detections = dets,
                                     resp_processing_time_ms =
                                       py_round ((t_end env - t_start env) * 1000) 2,
                                     resp_model_used = requested_model data,
                                     resp_confidence_threshold = requested_threshold data,
                                     resp_image_size = (img_width img, img_height img),
                                     resp_device_id =
                                       (case dq_device_id data of Some d \<Rightarrow> d | None \<Rightarrow> ''unknown''),
                                     resp_detection_count = length dets,
                                     resp_request_count = request_counter w2,
                                     resp_alerts = make_alerts dets\<rparr>)))))))"
  by (cases "maintenance env w") (simp add: detect_objects_def Let_def split: option.split)




section \<open>Worker: the model table after a reload\<close>

lemma load_one_keys:
  "fst ` set (load_one fs ms f) =
     fst ` set ms \<union> replace_pt ` {g \<in> {f}. endswith g ''.pt'' \<and> yolo fs g \<noteq> None}"
  by (auto simp: load_one_def AList.dom_update split: option.splits)

lemma foldl_load_one_keys:
  "fst ` set (foldl (load_one fs) ms files) =
     fst ` set ms \<union> replace_pt ` {f \<in> set files. endswith f ''.pt'' \<and> yolo fs f \<noteq> None}"
proof (induction files arbitrary: ms)
  case Nil
  then show ?case by simp
next
  case (Cons f files)
  show ?case
    unfolding foldl_Cons Cons.IH load_one_keys by auto
qed

lemma load_models_listed:
  assumes "dir_exists fs" and "listdir fs = Some files"
  shows "load_models fs ms = (False, foldl (load_one fs) ms files)"
  using assms by (simp add: load_models_def)

lemma load_models_raised:
  "fst (load_models fs ms) \<Longrightarrow> snd (load_models fs ms) = ms"
  by (auto simp: load_models_def split: option.splits if_splits)

lemma reload_ok:
  assumes "reload_due w" and "\<not> fst (load_models (fs_reload env) [])"
  shows "fst (reload_models_if_needed env w) =
     w\<lparr>models := snd (load_models (fs_reload env) []), last_model_reload := request_counter w\<rparr>"
  using assms
  by (cases "load_models (fs_reload env) []")
     (simp add: reload_models_if_needed_def Let_def)

lemma reload_raised:
  assumes "reload_due w" and "fst (load_models (fs_reload env) [])"
  shows "fst (reload_models_if_needed env w) =
     w\<lparr>models := snd (load_models (fs_retry env) [])\<rparr>"
proof -
  obtain ms where l: "load_models (fs_reload env) [] = (True, ms)"
    using assms(2) by (cases "load_models (fs_reload env) []") auto
  then have "ms = []" using load_models_raised [of "fs_reload env" "[]"] by simp
  with l assms(1) show ?thesis
    by (simp add: reload_models_if_needed_def Let_def)
qed

text \<open>
  C1 (as the code has it). A reload that is due empties the table and loads again what
  the models directory lists. If the directory is listed, in the reload or, after the
  reload raised, in its fallback load, the table afterwards holds exactly the listed
  \<open>.pt\<close> files that load, so a model loaded before whose file is listed is missing
  afterwards only if its own load failed. If the reload raised, \<open>last_model_reload\<close> is
  left as it was; if the fallback load raised too, the table is left empty.
\<close>

theorem reload_table:
  "(reload_due w1 \<and> dir_exists (fs_reload env1) \<and> listdir (fs_reload env1) = Some files1
      \<longrightarrow> fst ` set (models (fst (reload_models_if_needed env1 w1)))
            = replace_pt ` {f \<in> set files1. endswith f ''.pt'' \<and> yolo (fs_reload env1) f \<noteq> None}
        \<and> (\<forall>f \<in> set files1. endswith f ''.pt''
               \<and> map_of (models w1) (replace_pt f) \<noteq> None
               \<and> map_of (models (fst (reload_models_if_needed env1 w1))) (replace_pt f) = None
             \<longrightarrow> yolo (fs_reload env1) f = None))
   \<and> (reload_due w2 \<and> fst (load_models (fs_reload env2) [])
        \<and> dir_exists (fs_retry env2) \<and> listdir (fs_retry env2) = Some files2
      \<longrightarrow> fst ` set (models (fst (reload_models_if_needed env2 w2)))
            = replace_pt ` {f \<in> set files2. endswith f ''.pt'' \<and> yolo (fs_retry env2) f \<noteq> None}
        \<and> last_model_reload (fst (reload_models_if_needed env2 w2)) = last_model_reload w2)
   \<and> (reload_due w3 \<and> fst (load_models (fs_reload env3) []) \<and> fst (load_models (fs_retry env3) [])
      \<longrightarrow> models (fst (reload_models_if_needed env3 w3)) = []
        \<and> last_model_reload (fst (reload_models_if_needed env3 w3)) = last_model_reload w3)"
proof (intro conjI impI)
  assume a: "reload_due w1 \<and> dir_exists (fs_reload env1) \<and> listdir (fs_reload env1) = Some files1"
  then have l: "load_models (fs_reload env1) [] = (False, foldl (load_one (fs_reload env1)) [] files1)"
    by (simp add: load_models_listed)
  with a have m: "models (fst (reload_models_if_needed env1 w1)) = foldl (load_one (fs_reload env1)) [] files1"
    by (simp add: reload_ok)
  show k: "fst ` set (models (fst (reload_models_if_needed env1 w1)))
            = replace_pt ` {f \<in> set files1. endswith f ''.pt'' \<and> yolo (fs_reload env1) f \<noteq> None}"
    by (simp add: m foldl_load_one_keys)
  show "\<forall>f \<in> set files1. endswith f ''.pt''
               \<and> map_of (models w1) (replace_pt f) \<noteq> None
               \<and> map_of (models (fst (reload_models_if_needed env1 w1))) (replace_pt f) = None
             \<longrightarrow> yolo (fs_reload env1) f = None"
  proof (intro ballI impI)
    fix f
    assume f: "f \<in> set files1"
      and h: "endswith f ''.pt''
               \<and> map_of (models w1) (replace_pt f) \<noteq> None
               \<and> map_of (models (fst (reload_models_if_needed env1 w1))) (replace_pt f) = None"
    then have "replace_pt f \<notin> fst ` set (models (fst (reload_models_if_needed env1 w1)))"
      by (simp add: map_of_eq_None_iff)
    with f h show "yolo (fs_reload env1) f = None" unfolding k by blast
  qed
next
  assume a: "reload_due w2 \<and> fst (load_models (fs_reload env2) [])
        \<and> dir_exists (fs_retry env2) \<and> listdir (fs_retry env2) = Some files2"
  then have l: "load_models (fs_retry env2) [] = (False, foldl (load_one (fs_retry env2)) [] files2)"
    by (simp add: load_models_listed)
  from a have r: "fst (reload_models_if_needed env2 w2) =
     w2\<lparr>models := snd (load_models (fs_retry env2) [])\<rparr>"
    by (simp add: reload_raised)
  show "fst ` set (models (fst (reload_models_if_needed env2 w2)))
            = replace_pt ` {f \<in> set files2. endswith f ''.pt'' \<and> yolo (fs_retry env2) f \<noteq> None}"
    by (simp add: r l foldl_load_one_keys)
  show "last_model_reload (fst (reload_models_if_needed env2 w2)) = last_model_reload w2"
    by (simp add: r)
next
  assume a: "reload_due w3 \<and> fst (load_models (fs_reload env3) []) \<and> fst (load_models (fs_retry env3) [])"
  then have r: "fst (reload_models_if_needed env3 w3) =
     w3\<lparr>models := snd (load_models (fs_retry env3) [])\<rparr>"
    by (simp add: reload_raised)
  from a have "snd (load_models (fs_retry env3) []) = []" by (simp add: load_models_raised)
  with r show "models (fst (reload_models_if_needed env3 w3)) = []"
    and "last_model_reload (fst (reload_models_if_needed env3 w3)) = last_model_reload w3"
    by simp_all
qed


theorem reload_table_witness:
  "fst ` set (models (fst (reload_models_if_needed
        (ex_wenv\<lparr>fs_reload := ex_dir\<lparr>yolo := \<lambda>f. None\<rparr>\<rparr>) ex_due_worker))) = {}
   \<and> fst ` set (models (fst (reload_models_if_needed
        (ex_wenv\<lparr>fs_reload := ex_unreadable_dir\<rparr>) ex_due_worker))) = {''fire_detection_final''}
   \<and> last_model_reload (fst (reload_models_if_needed
        (ex_wenv\<lparr>fs_reload := ex_unreadable_dir\<rparr>) ex_due_worker)) = 0
   \<and> models (fst (reload_models_if_needed ex_bad_wenv ex_due_worker)) = []"
  using reload_table [where ?w1.0 = ex_due_worker
      and ?env1.0 = "ex_wenv\<lparr>fs_reload := ex_dir\<lparr>yolo := \<lambda>f. None\<rparr>\<rparr>"
      and ?files1.0 = "[''fire_detection_final.pt'', ''README.md'']"
      and ?w2.0 = ex_due_worker and ?env2.0 = "ex_wenv\<lparr>fs_reload := ex_unreadable_dir\<rparr>"
      and ?files2.0 = "[''fire_detection_final.pt'', ''README.md'']"
      and ?w3.0 = ex_due_worker and ?env3.0 = ex_bad_wenv]
  by (simp add: ex_due_worker_def ex_bad_wenv_def ex_wenv_def ex_dir_def ex_unreadable_dir_def
      ex_models_def reload_due_def reload_interval_def load_models_def endswith_def)

text \<open>
  C1 as stated fails when the models directory cannot be listed at the 100th request:
  the request names a model that served the 99 requests before and whose file would
  still load, no single load fails, and yet the table is empty after the call and the
  reply is 400 with no model available.
\<close>

theorem reload_table_counterexample:
  "models (serve (initial_worker ex_models) (replicate 99 (ex_wenv, Json ex_request))) = ex_models
   \<and> yolo (fs_reload ex_bad_wenv) ''fire_detection_final.pt'' = Some ex_model
   \<and> yolo (fs_retry ex_bad_wenv) ''fire_detection_final.pt'' = Some ex_model
   \<and> models (fst (detect_objects ex_bad_wenv
         (serve (initial_worker ex_models) (replicate 99 (ex_wenv, Json ex_request)))
         (Json ex_request))) = []
   \<and> snd (snd (detect_objects ex_bad_wenv
         (serve (initial_worker ex_models) (replicate 99 (ex_wenv, Json ex_request)))
         (Json ex_request))) = Reply 400 (ModelNotFound ''fire_detection_final'' [])"
proof -
  let ?calls = "replicate 99 (ex_wenv, Json ex_request)"
  let ?w = "serve (initial_worker ex_models) ?calls"
  have nr: "\<forall>(env, body) \<in> set ?calls. \<not> fst (load_models (fs_reload env) [])"
    by (simp add: ex_wenv_def ex_load)
  note core = schedule_core [OF nr, of ex_models]
  have m: "models ?w = ex_models"
    by (rule ex_models_serve) (simp add: initial_worker_def)
  have due: "reload_due (?w\<lparr>request_counter := request_counter ?w + 1\<rparr>)"
    using core by (simp add: reload_due_def)
  have bad: "fst (load_models (fs_reload ex_bad_wenv) [])" "fst (load_models (fs_retry ex_bad_wenv) [])"
    by (simp_all add: ex_bad_wenv_def ex_unreadable_dir_def ex_dir_def load_models_def)
  have "fst (maintenance ex_bad_wenv ?w)
      = fst (reload_models_if_needed ex_bad_wenv (?w\<lparr>request_counter := request_counter ?w + 1\<rparr>))"
    by (simp add: maintenance_def Let_def split: prod.split)
  also have "\<dots> = (?w\<lparr>request_counter := request_counter ?w + 1\<rparr>)
      \<lparr>models := snd (load_models (fs_retry ex_bad_wenv) [])\<rparr>"
    by (rule reload_raised [OF due bad(1)])
  finally have mt: "models (fst (maintenance ex_bad_wenv ?w)) = []"
    using load_models_raised [OF bad(2)] by simp
  have y: "yolo (fs_reload ex_bad_wenv) ''fire_detection_final.pt'' = Some ex_model"
    "yolo (fs_retry ex_bad_wenv) ''fire_detection_final.pt'' = Some ex_model"
    by (simp_all add: ex_bad_wenv_def ex_unreadable_dir_def ex_dir_def)
  have r: "snd (snd (detect_objects ex_bad_wenv ?w (Json ex_request)))
      = Reply 400 (ModelNotFound ''fire_detection_final'' [])"
  proof -
    have "dq_image ex_request = Some ''aGVsbG8=''"
      and "requested_model ex_request = ''fire_detection_final''"
      by (simp_all add: ex_request_def requested_model_def)
    then show ?thesis by (simp add: detect_unfold Let_def mt)
  qed
  show ?thesis using m y mt r by (simp add: detect_state)
qed

section \<open>Worker: the reload works on the table in place\<close>

lemma load_trace_last: "last (ms # load_trace fs ms files) = foldl (load_one fs) ms files"
  by (induction files arbitrary: ms) simp_all

lemma load_models_trace_last: "last (ms # load_models_trace fs ms) = snd (load_models fs ms)"
proof (cases "dir_exists fs")
  case False
  then show ?thesis by (simp add: load_models_trace_def load_models_def)
next
  case True
  show ?thesis
  proof (cases "listdir fs")
    case None
    with True show ?thesis by (simp add: load_models_trace_def load_models_def)
  next
    case (Some files)
    with True have "load_models_trace fs ms = load_trace fs ms files"
      and "snd (load_models fs ms) = foldl (load_one fs) ms files"
      by (simp_all add: load_models_trace_def load_models_def)
    then show ?thesis by (simp only: load_trace_last)
  qed
qed

lemma load_models_trace_raised: "fst (load_models fs ms) \<Longrightarrow> load_models_trace fs ms = []"
  by (auto simp: load_models_trace_def load_models_def split: option.splits if_splits)

lemma reload_trace_last:
  "last (reload_table_trace env w) = models (fst (reload_models_if_needed env w))"
proof (cases "reload_due w")
  case False
  then show ?thesis by (simp add: reload_table_trace_def reload_models_if_needed_def)
next
  case due: True
  show ?thesis
  proof (cases "fst (load_models (fs_reload env) [])")
    case True
    then obtain ms where l: "load_models (fs_reload env) [] = (True, ms)"
      by (cases "load_models (fs_reload env) []") auto
    then have ms: "ms = []" using load_models_raised [of "fs_reload env" "[]"] by simp
    have "reload_table_trace env w =
        (models w # del_trace (models w) (map fst (models w))) @
        ([] # load_models_trace (fs_retry env) [])"
      using due l ms True by (simp add: reload_table_trace_def load_models_trace_raised)
    then have "last (reload_table_trace env w) = last ([] # load_models_trace (fs_retry env) [])"
      by (simp only: last_append) simp
    then show ?thesis
      using due True by (simp add: load_models_trace_last reload_raised del: last.simps)
  next
    case False
    then obtain ms where l: "load_models (fs_reload env) [] = (False, ms)"
      by (cases "load_models (fs_reload env) []") auto
    have "reload_table_trace env w =
        (models w # del_trace (models w) (map fst (models w))) @
        ([] # load_models_trace (fs_reload env) [])"
      using due l by (simp add: reload_table_trace_def)
    then have "last (reload_table_trace env w) = last ([] # load_models_trace (fs_reload env) [])"
      by (simp only: last_append) simp
    then show ?thesis
      using due False by (simp add: load_models_trace_last reload_ok del: last.simps)
  qed
qed

text \<open>
  C9 (as the code has it). A reload that is due works on the table in place: the
  values the table takes start at the table before the reload, pass through the empty
  table, and end at the table the reload leaves.
\<close>

theorem reload_in_place:
  assumes "reload_due w"
  shows "hd (reload_table_trace env w) = models w
       \<and> last (reload_table_trace env w) = models (fst (reload_models_if_needed env w))
       \<and> [] \<in> set (reload_table_trace env w)"
  using assms by (simp add: reload_trace_last) (simp add: reload_table_trace_def)

theorem reload_in_place_witness:
  "hd (reload_table_trace ex_wenv ex_due_worker) = ex_models
   \<and> last (reload_table_trace ex_wenv ex_due_worker)
       = models (fst (reload_models_if_needed ex_wenv ex_due_worker))
   \<and> [] \<in> set (reload_table_trace ex_wenv ex_due_worker)"
  using reload_in_place [where w = ex_due_worker and env = ex_wenv]
  by (simp add: ex_due_worker_def reload_due_def reload_interval_def)

text \<open>
  C9 as stated fails on a reload that succeeds: between the table before and the equal
  table after, the table is empty, which is neither of the two.
\<close>

theorem reload_in_place_counterexample:
  "reload_table_trace ex_wenv ex_due_worker = [ex_models, [], [], ex_models, ex_models]
   \<and> models ex_due_worker = ex_models
   \<and> models (fst (reload_models_if_needed ex_wenv ex_due_worker)) = ex_models
   \<and> ex_models \<noteq> []"
proof -
  have fs: "fs_reload ex_wenv = ex_dir" by (simp add: ex_wenv_def)
  have due: "reload_due ex_due_worker"
    by (simp add: ex_due_worker_def reload_due_def reload_interval_def)
  have m: "models ex_due_worker = ex_models" by (simp add: ex_due_worker_def)
  have d: "del_trace ex_models (map fst ex_models) = [[]]" by (simp add: ex_models_def)
  have t: "load_models_trace ex_dir [] = [ex_models, ex_models]"
    by (simp add: load_models_trace_def ex_dir_def load_one_def endswith_def ex_models_def)
  have "reload_table_trace ex_wenv ex_due_worker = [ex_models, [], [], ex_models, ex_models]"
    by (simp add: reload_table_trace_def due fs ex_load m d t)
  moreover have "models (fst (reload_models_if_needed ex_wenv ex_due_worker)) = ex_models"
    using due by (simp add: reload_ok fs ex_load)
  moreover have "ex_models \<noteq> []" by (simp add: ex_models_def)
  ultimately show ?thesis using m by simp
qed

section \<open>Supervisor: restarts and their budget\<close>


















text \<open>
  The pass that finds the AI Server process dead restarts it inside the loop and then,
  the new process never having been probed, restarts it a second time as unresponsive:
  one crash takes two restarts from the budget.
\<close>

lemma crash_restarts_twice:
  "monitor_pass ex_crashed (launched 1 2 3)
     = (\<lparr>processes = [(''Dashboard'', 2), (''ESP32-CAM Simulator'', 3), (''AI Server'', 11)],
         ai_server_restart_count = 2\<rparr>,
        [LogStopped ''AI Server'', LogRestartAttempt 1, StartAiServer, LogRestarted,
         LogRunning [''Dashboard'', ''ESP32-CAM Simulator''],
         LogForcingRestart, Terminate 10, Pause 2, StartAiServer, LogUnresponsiveRestarted])"
  by (simp add: launched_def ex_crashed_def max_ai_server_restarts_def not_ai_server_def
      monitor_pass_def check_process_def Let_def)

end
